theory Spec2Isabelle
  imports Complex_Main "HOL-Library.Word"
begin

unbundle bit_operations_syntax

section \<open>Block-wise FP8 (E4M3) optimizer state: \<open>torchao/prototype/low_bit_optim/subclass_fp8.py\<close>\<close>

text \<open>
  Modelling conventions.
  \<^item> A float tensor holding finite values is a \<open>real list\<close> (row-major, flattened);
    float32 arithmetic on it is exact real arithmetic. A tensor that may hold a
    non-finite value is an \<open>fval list\<close>. Signed zeros are identified.
  \<^item> A \<open>float8_e4m3fn\<close> tensor is a list of bytes (\<open>8 word\<close>): sign bit, four exponent
    bits (bias 7), three mantissa bits; \<open>0x7F\<close> and \<open>0xFF\<close> are NaN, there is no infinity.
  \<^item> Tensors are one-dimensional; \<open>view(-1, b)\<close> produces a list of rows.
  \<^item> A Python exception is a value of type \<open>error\<close>, returned as \<open>Inl\<close>.
\<close>

datatype error =
  AssertionError | AttributeError | RuntimeError | TypeError
  | UnboundLocalError | ZeroDivisionError

datatype fval = Fin real | PInf | NInf | NaN

type_synonym fp8 = "8 word"

subsection \<open>The narrow format \<open>DTYPE = torch.float8_e4m3fn\<close>\<close>

text \<open>\<open>torch.finfo(DTYPE).max\<close> and \<open>torch.finfo(DTYPE).min\<close> (the most negative value).\<close>

definition finfo_max :: real where
  "finfo_max = 448"

definition finfo_min :: real where
  "finfo_min = - 448"


text \<open>Round to the nearest integer, ties to the even one.\<close>

definition round_half_even :: "real \<Rightarrow> int" where
  "round_half_even x =
     (let f = \<lfloor>x\<rfloor>; d = x - of_int f
      in if d < 1 / 2 then f else if 1 / 2 < d then f + 1
         else if even f then f else f + 1)"

text \<open>The biased exponent field of a magnitude \<open>y\<close>: the largest \<open>E\<close> in \<open>1..n\<close> with
  \<open>2 ^ (E - 7) \<le> y\<close>, and 0 (subnormal) when there is none.\<close>

fun fp8_exponent :: "nat \<Rightarrow> real \<Rightarrow> nat" where
  "fp8_exponent 0 y = 0"
| "fp8_exponent (Suc e) y = (if 2 ^ Suc e \<le> y * 128 then Suc e else fp8_exponent e y)"

text \<open>The seven magnitude bits of the cast of \<open>y \<ge> 0\<close>: the mantissa is rounded at the
  spacing \<open>2 ^ (max E 1 - 10)\<close> of the binade; a mantissa that rounds up to 16 carries into
  the exponent; everything from code 127 on is the NaN pattern.\<close>

definition fp8_mag_code :: "real \<Rightarrow> nat" where
  "fp8_mag_code y =
     (let E = fp8_exponent 15 y;
          q = nat (round_half_even (y * 1024 / 2 ^ max E 1))
      in min 127 (if E = 0 then q else 8 * (E - 1) + q))"

text \<open>The value of the magnitude bits \<open>n < 127\<close>.\<close>

definition fp8_mag_val :: "nat \<Rightarrow> real" where
  "fp8_mag_val n =
     (if n < 8 then real n / 512 else real (8 + n mod 8) * 2 ^ (n div 8) / 1024)"

text \<open>\<open>x.to(DTYPE)\<close> for a finite \<open>x\<close>, and \<open>c.float()\<close>.\<close>

definition to_fp8 :: "real \<Rightarrow> fp8" where
  "to_fp8 x = (if x < 0 then 128 else 0) OR word_of_nat (fp8_mag_code \<bar>x\<bar>)"

definition fp8_float :: "fp8 \<Rightarrow> fval" where
  "fp8_float w =
     (let n = unat (w AND 127)
      in if n = 127 then NaN
         else Fin ((if bit w 7 then - 1 else 1) * fp8_mag_val n))"

subsection \<open>Tensor primitives\<close>

text \<open>Consecutive rows of \<open>b\<close> elements.\<close>

function chunks :: "nat \<Rightarrow> 'a list \<Rightarrow> 'a list list" where
  "chunks b xs = (if b = 0 \<or> xs = [] then [] else take b xs # chunks b (drop b xs))"
  by pat_completeness auto
termination
  by (relation "measure (\<lambda>(b, xs). length xs)") auto

declare chunks.simps [simp del]

text \<open>\<open>t.view(-1, b)\<close>: a \<open>RuntimeError\<close> unless \<open>b\<close> is positive and divides the number of
  elements (an empty tensor gives zero rows).\<close>

definition view_blocks :: "'a list \<Rightarrow> int \<Rightarrow> error + 'a list list" where
  "view_blocks t b =
     (if b \<le> 0 then Inl RuntimeError
      else if int (length t) mod b \<noteq> 0 then Inl RuntimeError
      else Inr (chunks (nat b) t))"

text \<open>\<open>t.view(shape)\<close> back to a stored shape of \<open>n\<close> elements.\<close>

definition view_flat :: "'a list list \<Rightarrow> nat \<Rightarrow> error + 'a list" where
  "view_flat rows n = (if length (concat rows) = n then Inr (concat rows) else Inl RuntimeError)"

text \<open>\<open>t.amax(-1)\<close> and \<open>t.amin(-1)\<close> on one row; a row of a view has at least one element.\<close>

fun amax :: "real list \<Rightarrow> real" where
  "amax [] = 0"
| "amax [x] = x"
| "amax (x # y # ys) = max x (amax (y # ys))"

fun amin :: "real list \<Rightarrow> real" where
  "amin [] = 0"
| "amin [x] = x"
| "amin (x # y # ys) = min x (amin (y # ys))"

text \<open>\<open>t.clip(1e-12)\<close>: a lower bound only.\<close>

definition clip :: "real \<Rightarrow> real" where
  "clip x = max x (1 / 10 ^ 12)"

text \<open>\<open>torch.log\<close> applied to a Python \<open>float\<close>: the function accepts tensors only, so the
  call raises \<open>TypeError\<close> whatever the number is.\<close>

definition torch_log_scalar :: "real \<Rightarrow> error + real" where
  "torch_log_scalar x = Inl TypeError"

text \<open>\<open>a * s\<close> and \<open>a ** p\<close> for one element \<open>a\<close> that may be non-finite and a finite
  \<open>s\<close>, \<open>p\<close>, as IEEE 754 defines them.\<close>

fun fmul :: "fval \<Rightarrow> real \<Rightarrow> fval" where
  "fmul (Fin x) s = Fin (x * s)"
| "fmul NaN s = NaN"
| "fmul PInf s = (if 0 < s then PInf else if s < 0 then NInf else NaN)"
| "fmul NInf s = (if 0 < s then NInf else if s < 0 then PInf else NaN)"

definition odd_integer :: "real \<Rightarrow> bool" where
  "odd_integer p \<longleftrightarrow> p = of_int \<lfloor>p\<rfloor> \<and> odd \<lfloor>p\<rfloor>"

fun torch_pow :: "fval \<Rightarrow> real \<Rightarrow> fval" where
  "torch_pow (Fin x) p =
     (if p = 0 then Fin 1
      else if 0 < x then Fin (x powr p)
      else if x = 0 then (if 0 < p then Fin 0 else PInf)
      else if p = of_int \<lfloor>p\<rfloor> then Fin (x powi \<lfloor>p\<rfloor>)
      else NaN)"
| "torch_pow NaN p = (if p = 0 then Fin 1 else NaN)"
| "torch_pow PInf p = (if p = 0 then Fin 1 else if 0 < p then PInf else Fin 0)"
| "torch_pow NInf p =
     (if p = 0 then Fin 1
      else if 0 < p then (if odd_integer p then NInf else PInf)
      else Fin 0)"

text \<open>\<open>rows * s.view(-1, 1)\<close>: broadcasting of a column of \<open>m\<close> scalars over \<open>r\<close> rows needs
  \<open>r = m\<close>, \<open>m = 1\<close> or \<open>r = 1\<close>.\<close>

definition mul_rows :: "fval list list \<Rightarrow> real list \<Rightarrow> error + fval list list" where
  "mul_rows rows s =
     (if length rows = length s then Inr (map2 (\<lambda>r c. map (\<lambda>a. fmul a c) r) rows s)
      else if length s = 1 then Inr (map (map (\<lambda>a. fmul a (hd s))) rows)
      else if length rows = 1 then Inr (map (\<lambda>c. map (\<lambda>a. fmul a c) (hd rows)) s)
      else Inl RuntimeError)"

text \<open>\<open>dst.copy_(src)\<close> on one-dimensional tensors: \<open>src\<close> is broadcast to the length of
  \<open>dst\<close>.\<close>

definition tensor_copy :: "'a list \<Rightarrow> 'a list \<Rightarrow> error + 'a list" where
  "tensor_copy dst src =
     (if length src = length dst then Inr src
      else if length src = 1 then Inr (replicate (length dst) (hd src))
      else Inl RuntimeError)"

text \<open>The truth value of \<open>self.k\<close> in \<open>if self.k:\<close>: \<open>None\<close> is false; a tensor of one
  element is true when the element is not zero; any other tensor raises.\<close>

definition truthy :: "real list option \<Rightarrow> error + bool" where
  "truthy t =
     (case t of None \<Rightarrow> Inr False
      | Some v \<Rightarrow> (if length v = 1 then Inr (hd v \<noteq> 0) else Inl RuntimeError))"

subsection \<open>\<open>quantize_fp8\<close>\<close>

text \<open>Line 25: \<open>Rdtype = torch.finfo(DTYPE).max / torch.finfo(DTYPE).min\<close>.\<close>

definition Rdtype :: real where
  "Rdtype = finfo_max / finfo_min"

text \<open>Line 26: \<open>Rx\<close> of one row.\<close>

definition Rx :: "real list \<Rightarrow> real" where
  "Rx r = clip (amax (map abs r)) / clip (amin (map abs r))"

text \<open>Line 30 on one row, and lines 31-32 on one row.\<close>

definition block_scale :: "real list \<Rightarrow> real" where
  "block_scale r = clip (amax (map abs r)) / finfo_max"

definition block_codes :: "real list \<Rightarrow> real \<Rightarrow> fp8 list" where
  "block_codes r s = map (\<lambda>x. to_fp8 (x / s)) r"

text \<open>Lines 21-28: the range expansion. The first operand of line 27,
  \<open>torch.log(Rdtype)\<close>, is evaluated first. The tensor of ones that line 19 assigns to \<open>k\<close>
  is never read (line 27 assigns \<open>k\<close> anew); its construction is taken to succeed.\<close>

definition expand_range :: "real list list \<Rightarrow> error + (real list list \<times> real list)" where
  "expand_range rows =
     (let rx = map Rx rows
      in case torch_log_scalar Rdtype of
           Inl e \<Rightarrow> Inl e
         | Inr lg \<Rightarrow>
             (let kk = map (\<lambda>v. lg / ln v) rx
              in Inr (map2 (\<lambda>r p. map (\<lambda>x. sgn x * (\<bar>x\<bar> powr p)) r) rows kk, kk)))"

definition quantize_fp8 ::
    "real list \<Rightarrow> int \<Rightarrow> bool \<Rightarrow> error + (fp8 list \<times> real list \<times> real list option)" where
  "quantize_fp8 input block_size dynamic_range_expansion =
     (case view_blocks input block_size of
        Inl e \<Rightarrow> Inl e
      | Inr rows \<Rightarrow>
          (case (if dynamic_range_expansion
                 then (case expand_range rows of
                         Inl e \<Rightarrow> Inl e
                       | Inr (rows', kk) \<Rightarrow> Inr (rows', Some kk))
                 else Inr (rows, None)) of
             Inl e \<Rightarrow> Inl e
           | Inr (rows', kopt) \<Rightarrow>
               (let scale = map block_scale rows';
                    codes = concat (map2 block_codes rows' scale)
                in Inr (codes, scale, kopt))))"

subsection \<open>The class \<open>OptimStateFp8\<close>\<close>

record OptimStateFp8 =
  codes :: "fp8 list"
  scale :: "real list"
  k :: "real list option"
  block_size :: int

text \<open>The constructor call \<open>OptimStateFp8(codes, scale)\<close> or \<open>OptimStateFp8(codes, scale, k)\<close>.
  Python passes the same arguments to \<open>__new__\<close> and to \<open>__init__\<close>; \<open>__new__\<close> (line 44)
  takes \<open>codes\<close> and \<open>scale\<close> only, so a third argument raises \<open>TypeError\<close> there. The two
  assertions of \<open>__init__\<close> hold by the types of the model. Line 63 divides two Python
  integers.\<close>

definition OptimStateFp8_init ::
    "fp8 list \<Rightarrow> real list \<Rightarrow> real list option \<Rightarrow> error + OptimStateFp8" where
  "OptimStateFp8_init c s kopt =
     (if kopt \<noteq> None then Inl TypeError
      else if length s = 0 then Inl ZeroDivisionError
      else Inr \<lparr>codes = c, scale = s, k = kopt,
                block_size = int (length c) div int (length s)\<rparr>)"

text \<open>Lines 77-78 of \<open>dequantize\<close>: widen the codes and multiply each block by its scale.\<close>

definition rescale :: "OptimStateFp8 \<Rightarrow> error + fval list list" where
  "rescale st =
     (case view_blocks (map fp8_float (codes st)) (block_size st) of
        Inl e \<Rightarrow> Inl e
      | Inr rows \<Rightarrow> mul_rows rows (scale st))"

text \<open>Lines 80-82: \<open>if self.k:\<close> and the power \<open>float_data ** (1 / self.k.view(-1, 1))\<close>; a
  tensor that passed the test has one element, which is broadcast.\<close>

definition inverse_power :: "real list option \<Rightarrow> fval list list \<Rightarrow> error + fval list list" where
  "inverse_power kopt fd =
     (case truthy kopt of
        Inl e \<Rightarrow> Inl e
      | Inr t \<Rightarrow>
          (case kopt of
             None \<Rightarrow> Inr fd
           | Some v \<Rightarrow> if t then Inr (map (map (\<lambda>a. torch_pow a (1 / hd v))) fd) else Inr fd))"

text \<open>\<open>dequantize(self)\<close> with the default \<open>output_dtype=None\<close>.\<close>

definition dequantize :: "OptimStateFp8 \<Rightarrow> error + fval list" where
  "dequantize st =
     (case rescale st of
        Inl e \<Rightarrow> Inl e
      | Inr fd \<Rightarrow>
          (case inverse_power (k st) fd of
             Inl e \<Rightarrow> Inl e
           | Inr fd' \<Rightarrow> view_flat fd' (length (codes st))))"

text \<open>\<open>OptimStateFp8.zeros(shape, block_size)\<close> for a shape of \<open>n\<close> elements.\<close>

definition zeros :: "nat \<Rightarrow> int \<Rightarrow> error + OptimStateFp8" where
  "zeros n b =
     (if b = 0 then Inl ZeroDivisionError
      else if int n div b < 0 then Inl RuntimeError
      else OptimStateFp8_init (replicate n 0) (replicate (nat (int n div b)) 0) None)"

subsection \<open>The handlers of \<open>aten.copy_\<close> and \<open>aten._to_copy\<close>\<close>

datatype tensor_arg = Quantized OptimStateFp8 | Plain "fval list"

text \<open>Lines 107-111, both arguments quantized. The result is the destination as the call
  leaves it, with the exception that ended the call, if any. \<open>None.copy_\<close> raises
  \<open>AttributeError\<close>; \<open>t.copy_(None)\<close> raises \<open>TypeError\<close>.\<close>

definition copy_fields :: "OptimStateFp8 \<Rightarrow> OptimStateFp8 \<Rightarrow> OptimStateFp8 \<times> error option" where
  "copy_fields dst src =
     (if block_size dst \<noteq> block_size src then (dst, Some AssertionError)
      else case tensor_copy (codes dst) (codes src) of
        Inl e \<Rightarrow> (dst, Some e)
      | Inr c \<Rightarrow>
          (let dst1 = dst\<lparr>codes := c\<rparr>
           in case tensor_copy (scale dst1) (scale src) of
                Inl e \<Rightarrow> (dst1, Some e)
              | Inr s \<Rightarrow>
                  (let dst2 = dst1\<lparr>scale := s\<rparr>
                   in case k dst2 of
                        None \<Rightarrow> (dst2, Some AttributeError)
                      | Some kd \<Rightarrow>
                          (case k src of
                             None \<Rightarrow> (dst2, Some TypeError)
                           | Some ks \<Rightarrow>
                               (case tensor_copy kd ks of
                                  Inl e \<Rightarrow> (dst2, Some e)
                                | Inr kn \<Rightarrow> (dst2\<lparr>k := Some kn\<rparr>, None))))))"

text \<open>The handler. In the second branch line 115 reads the local variable \<open>codes\<close> before
  anything was assigned to it, so the call to \<open>quantize_fp8\<close> is never made. In the third
  branch a plain source has no method \<open>dequantize\<close>.\<close>

fun aten_copy :: "tensor_arg \<Rightarrow> tensor_arg \<Rightarrow> tensor_arg \<times> error option" where
  "aten_copy (Quantized dst) (Quantized src) =
     (case copy_fields dst src of (d, r) \<Rightarrow> (Quantized d, r))"
| "aten_copy (Quantized dst) (Plain src) = (Quantized dst, Some UnboundLocalError)"
| "aten_copy (Plain dst) (Quantized src) =
     (case dequantize src of
        Inl e \<Rightarrow> (Plain dst, Some e)
      | Inr v \<Rightarrow>
          (case tensor_copy dst v of
             Inl e \<Rightarrow> (Plain dst, Some e)
           | Inr d \<Rightarrow> (Plain d, None)))"
| "aten_copy (Plain dst) (Plain src) = (Plain dst, Some AttributeError)"

text \<open>Lines 126-134: the new state is built from the codes and the scale of the argument.\<close>

definition aten_to_copy :: "OptimStateFp8 \<Rightarrow> error + OptimStateFp8" where
  "aten_to_copy st = OptimStateFp8_init (codes st) (scale st) None"

text \<open>Lines 30-32 followed by lines 77-78, on one row: the row is divided by its scale,
  cast to E4M3, widened and multiplied by the scale again.\<close>

definition roundtrip_row :: "real list \<Rightarrow> fval list" where
  "roundtrip_row r =
     map (\<lambda>x. fmul (fp8_float (to_fp8 (x / block_scale r))) (block_scale r)) r"

section \<open>Evaluation lemmas\<close>

lemma fp8_exponent_numeral:
  "fp8_exponent (numeral n) y =
     (if 2 ^ numeral n \<le> y * 128 then numeral n else fp8_exponent (pred_numeral n) y)"
  by (simp add: numeral_eq_Suc)

lemma chunks_Nil: "chunks b [] = []"
  by (simp add: chunks.simps)

lemma chunks_Cons:
  "chunks b (x # xs) = (if b = 0 then [] else take b (x # xs) # chunks b (drop b (x # xs)))"
  by (subst chunks.simps) simp

lemmas fp8_eval = to_fp8_def fp8_float_def fp8_mag_val_def fp8_mag_code_def
  round_half_even_def fp8_exponent_numeral

lemmas dequantize_eval = dequantize_def rescale_def view_blocks_def chunks_Cons chunks_Nil
  mul_rows_def inverse_power_def truthy_def view_flat_def

lemmas quantize_eval = quantize_fp8_def view_blocks_def chunks_Cons chunks_Nil
  expand_range_def torch_log_scalar_def block_scale_def block_codes_def clip_def finfo_max_def

section \<open>The range expansion of \<open>quantize_fp8\<close>\<close>



section \<open>The handler of \<open>aten.copy_\<close>\<close>

text \<open>
  C5 (the code departs from the claim). The claim has a quantized destination overwritten
  from a plain source by quantizing the source. Line 115 passes the unassigned local
  \<open>codes\<close> instead of \<open>src\<close>: for every destination and every plain source the call raises
  \<open>UnboundLocalError\<close> and the destination keeps its fields.
\<close>

theorem copy_from_plain_raises:
  "aten_copy (Quantized dst) (Plain src) = (Quantized dst, Some UnboundLocalError)"
  by simp

text \<open>
  C6. A copy between two quantized states of different block sizes raises
  \<open>AssertionError\<close> (line 108), and the destination is left as it was: its codes, scale and
  \<open>k\<close> are unchanged.
\<close>

theorem copy_block_size_mismatch:
  "block_size dst \<noteq> block_size src \<Longrightarrow>
     aten_copy (Quantized dst) (Quantized src) = (Quantized dst, Some AssertionError)"
  by (simp add: copy_fields_def)

theorem copy_block_size_mismatch_witness:
  "block_size \<lparr>codes = replicate 256 0, scale = [0], k = None, block_size = 256\<rparr>
     \<noteq> block_size \<lparr>codes = replicate 128 0, scale = [0], k = None, block_size = 128\<rparr>
   \<and> aten_copy
        (Quantized \<lparr>codes = replicate 256 0, scale = [0], k = None, block_size = 256\<rparr>)
        (Quantized \<lparr>codes = replicate 128 0, scale = [0], k = None, block_size = 128\<rparr>)
     = (Quantized \<lparr>codes = replicate 256 0, scale = [0], k = None, block_size = 256\<rparr>,
        Some AssertionError)"
  using copy_block_size_mismatch
    [of "\<lparr>codes = replicate 256 0, scale = [0], k = None, block_size = 256\<rparr>"
        "\<lparr>codes = replicate 128 0, scale = [0], k = None, block_size = 128\<rparr>"]
  by simp

text \<open>When both states carry a \<open>k\<close> and the shapes agree, the three fields are copied as
  they are.\<close>

lemma copy_fields_verbatim:
  assumes "block_size dst = block_size src"
    and "length (codes src) = length (codes dst)"
    and "length (scale src) = length (scale dst)"
    and "k dst = Some kd" and "k src = Some ks" and "length ks = length kd"
  shows "aten_copy (Quantized dst) (Quantized src)
     = (Quantized (dst\<lparr>codes := codes src, scale := scale src, k := Some ks\<rparr>), None)"
  using assms by (simp add: copy_fields_def tensor_copy_def)

text \<open>
  C7 (the code departs from the claim). The claim has the copy between two quantized
  states of one block size complete without error, \<open>k\<close> being copied if present. Line 111
  calls \<open>dst.k.copy_\<close> unconditionally, and every state the constructor builds has
  \<open>k = None\<close>: copying \<open>OptimStateFp8.zeros((4,), 4)\<close> into a state of the same contents
  raises \<open>AttributeError\<close>, after the codes and the scale were copied.
\<close>

theorem copy_without_k_raises:
  "zeros 4 4 = Inr \<lparr>codes = [0, 0, 0, 0], scale = [0], k = None, block_size = 4\<rparr>
  \<and> aten_copy (Quantized \<lparr>codes = [0, 0, 0, 0], scale = [0], k = None, block_size = 4\<rparr>)
       (Quantized \<lparr>codes = [0, 0, 0, 0], scale = [0], k = None, block_size = 4\<rparr>)
     = (Quantized \<lparr>codes = [0, 0, 0, 0], scale = [0], k = None, block_size = 4\<rparr>,
        Some AttributeError)"
  by (simp add: zeros_def OptimStateFp8_init_def copy_fields_def tensor_copy_def numeral_eq_Suc)

section \<open>The handler of \<open>aten._to_copy\<close>\<close>

text \<open>
  C10. The state that \<open>aten._to_copy\<close> builds from a state with a non-empty scale has the
  codes and the scale of its argument and \<open>k = None\<close>, whatever \<open>k\<close> the argument carried;
  \<open>dequantize\<close> on it is the rescaling of lines 77-78 alone, with no power applied.
\<close>

theorem to_copy_drops_k:
  assumes "scale st \<noteq> []"
  shows "\<exists>st'. aten_to_copy st = Inr st' \<and> k st' = None \<and> codes st' = codes st
     \<and> scale st' = scale st
     \<and> dequantize st' = (case rescale st' of Inl e \<Rightarrow> Inl e
           | Inr fd \<Rightarrow> view_flat fd (length (codes st)))"
  using assms
  by (simp add: aten_to_copy_def OptimStateFp8_init_def dequantize_def inverse_power_def
      truthy_def split: sum.splits)

theorem to_copy_drops_k_witness:
  "scale \<lparr>codes = [to_fp8 (- 2)], scale = [1], k = Some [1 / 2], block_size = 1\<rparr> \<noteq> []
  \<and> dequantize \<lparr>codes = [to_fp8 (- 2)], scale = [1], k = Some [1 / 2], block_size = 1\<rparr>
      = Inr [Fin 4]
  \<and> (\<exists>st'. aten_to_copy
             \<lparr>codes = [to_fp8 (- 2)], scale = [1], k = Some [1 / 2], block_size = 1\<rparr> = Inr st'
      \<and> k st' = None \<and> codes st' = [to_fp8 (- 2)] \<and> scale st' = [1]
      \<and> dequantize st' = Inr [Fin (- 2)])"
proof -
  let ?st = "\<lparr>codes = [to_fp8 (- 2)], scale = [1::real], k = Some [1 / 2], block_size = 1\<rparr>"
  have h: "scale ?st \<noteq> []" by simp
  from to_copy_drops_k [OF h] obtain st' where
    a: "aten_to_copy ?st = Inr st'" and b: "k st' = None" and c: "codes st' = codes ?st"
    and d: "scale st' = scale ?st" by blast
  have e: "st' = \<lparr>codes = [to_fp8 (- 2)], scale = [1], k = None, block_size = 1\<rparr>"
    using a by (simp add: aten_to_copy_def OptimStateFp8_init_def)
  have f: "dequantize st' = Inr [Fin (- 2)]"
    unfolding e by (simp add: dequantize_eval fp8_eval)
  have g: "dequantize ?st = Inr [Fin 4]"
    by (simp add: dequantize_eval fp8_eval)
  show ?thesis using h a b c d f g by simp
qed

section \<open>A scale whose length does not divide the number of codes\<close>

lemma length_chunks:
  "0 < b \<Longrightarrow> length xs mod b = 0 \<Longrightarrow> length (chunks b xs) = length xs div b"
proof (induction b xs rule: chunks.induct)
  case (1 b xs)
  show ?case
  proof (cases "xs = []")
    case True
    then show ?thesis by (simp add: chunks_Nil)
  next
    case False
    with 1(2,3) have le: "b \<le> length xs"
      by (metis length_greater_0_conv mod_less not_le less_irrefl)
    have m: "length (drop b xs) mod b = 0"
      using 1(3) le by (simp add: le_mod_geq)
    have "length (chunks b (drop b xs)) = length (drop b xs) div b"
      using 1(1) False 1(2) m by simp
    moreover have "chunks b xs = take b xs # chunks b (drop b xs)"
      using False 1(2) by (subst chunks.simps) simp
    ultimately show ?thesis
      using le 1(2) by (simp add: le_div_geq)
  qed
qed

lemma floored_block_size_rows:
  fixes n m :: nat
  assumes nd: "\<not> m dvd n" and b: "0 < n div m" and d: "n mod (n div m) = 0"
  shows "n div (n div m) \<noteq> m \<and> m \<noteq> 1 \<and> n div (n div m) \<noteq> 1"
proof -
  let ?b = "n div m"
  have n: "n = (n div ?b) * ?b"
    using d by (metis div_mult_mod_eq add.right_neutral)
  have m1: "m \<noteq> 1" using nd by auto
  have r: "n div ?b \<noteq> m"
  proof
    assume "n div ?b = m"
    with n have "n = m * ?b" by simp
    then have "m dvd n" by (metis dvd_triv_left)
    with nd show False by simp
  qed
  have m0: "0 < m" using b by (cases "m = 0") auto
  have r1: "n div ?b \<noteq> 1"
  proof
    assume "n div ?b = 1"
    with n have e: "n = n div m" by simp
    have "0 < n" using b e by simp
    have "m * (n div m) \<le> n" by simp
    with e have "m * n \<le> n" by simp
    with \<open>0 < n\<close> have "m \<le> 1" by simp
    with m0 m1 show False by simp
  qed
  from r m1 r1 show ?thesis by simp
qed

text \<open>
  C4, as the claim states it, fails: for ten codes and a scale of three entries the
  constructor accepts the pair with the floored block size 3, and \<open>dequantize\<close> then raises
  the \<open>RuntimeError\<close> of \<open>view\<close>, the error that \<open>quantize_fp8\<close> raises for an input whose
  length the block size does not divide; there is no separate malformed-state error.
\<close>

theorem decode_no_malformed_state_error:
  "OptimStateFp8_init (replicate 10 0) [1, 1, 1] None
     = Inr \<lparr>codes = replicate 10 0, scale = [1, 1, 1], k = None, block_size = 3\<rparr>
   \<and> dequantize \<lparr>codes = replicate 10 0, scale = [1, 1, 1], k = None, block_size = 3\<rparr>
     = Inl RuntimeError
   \<and> quantize_fp8 [1, 2, 3] 2 False = Inl RuntimeError"
  by (simp add: OptimStateFp8_init_def dequantize_def rescale_def quantize_fp8_def
      view_blocks_def)

text \<open>
  C4, amended. When the length of the scale does not divide the number of codes, the
  constructor raises \<open>ZeroDivisionError\<close> for an empty scale and otherwise builds the state
  with the floored block size; \<open>dequantize\<close> on that state raises \<open>RuntimeError\<close>, from
  \<open>view\<close> or from the broadcast of the scale.
\<close>

theorem decode_floored_block_size:
  assumes "\<not> length s dvd length c"
  shows "if s = [] then OptimStateFp8_init c s None = Inl ZeroDivisionError
     else (\<exists>st. OptimStateFp8_init c s None = Inr st
            \<and> block_size st = int (length c div length s)
            \<and> dequantize st = Inl RuntimeError)"
proof (cases "s = []")
  case True
  then show ?thesis by (simp add: OptimStateFp8_init_def)
next
  case False
  let ?b = "length c div length s"
  let ?st = "\<lparr>codes = c, scale = s, k = None, block_size = int ?b\<rparr>"
  have i: "OptimStateFp8_init c s None = Inr ?st"
    using False by (simp add: OptimStateFp8_init_def zdiv_int)
  have "rescale ?st = Inl RuntimeError"
  proof (cases "?b = 0 \<or> length c mod ?b \<noteq> 0")
    case True
    then show ?thesis
      by (auto simp add: rescale_def view_blocks_def zmod_int [symmetric])
  next
    case F: False
    then have b: "0 < ?b" and d: "length c mod ?b = 0" by auto
    have v: "view_blocks (map fp8_float c) (int ?b) = Inr (chunks ?b (map fp8_float c))"
      using b d by (simp add: view_blocks_def zmod_int [symmetric])
    have l: "length (chunks ?b (map fp8_float c)) = length c div ?b"
      using length_chunks [OF b, of "map fp8_float c"] d by simp
    from floored_block_size_rows [OF assms b d]
    show ?thesis
      by (simp add: rescale_def v mul_rows_def l)
  qed
  then have "dequantize ?st = Inl RuntimeError"
    by (simp add: dequantize_def)
  with i False show ?thesis by simp
qed

theorem decode_floored_block_size_witness:
  "\<not> length [1, 1, 1 :: real] dvd length (replicate 10 (0 :: fp8))
  \<and> (\<exists>st. OptimStateFp8_init (replicate 10 0) [1, 1, 1] None = Inr st
        \<and> block_size st = 3 \<and> dequantize st = Inl RuntimeError)"
proof -
  have l: "length [1, 1, 1 :: real] = 3" by simp
  have h: "\<not> length [1, 1, 1 :: real] dvd length (replicate 10 (0 :: fp8))"
    unfolding l by simp
  from decode_floored_block_size [OF h] h show ?thesis
    unfolding l by simp
qed

section \<open>The cast to E4M3 and back\<close>

subsection \<open>Rounding of the magnitude\<close>









subsection \<open>Sign bit and magnitude bits of a byte\<close>





subsection \<open>The error of one cast, and of one element of a block\<close>


lemma fp8_cast_zero: "to_fp8 0 = 0" "fp8_float 0 = Fin 0"
  by (simp_all add: fp8_eval)


lemma clip_pos: "0 < clip x"
  by (simp add: clip_def max_def)  

lemma block_scale_pos: "0 < block_scale r"
  using clip_pos by (simp add: block_scale_def finfo_max_def)



section \<open>Rows of a view\<close>

lemma chunks_step:
  "0 < b \<Longrightarrow> xs \<noteq> [] \<Longrightarrow> chunks b xs = take b xs # chunks b (drop b xs)"
  by (subst chunks.simps) simp

lemma concat_chunks: "0 < b \<Longrightarrow> concat (chunks b xs) = xs"
proof (induction b xs rule: chunks.induct)
  case (1 b xs)
  show ?case
  proof (cases "xs = []")
    case True
    then show ?thesis by (simp add: chunks_Nil)
  next
    case False
    with 1 show ?thesis by (simp add: chunks_step)
  qed
qed

lemma chunks_rows_length:
  "0 < b \<Longrightarrow> length xs mod b = 0 \<Longrightarrow> r \<in> set (chunks b xs) \<Longrightarrow> length r = b"
proof (induction b xs rule: chunks.induct)
  case (1 b xs)
  show ?case
  proof (cases "xs = []")
    case True
    with 1(4) show ?thesis by (simp add: chunks_Nil)
  next
    case False
    with 1(2,3) have le: "b \<le> length xs"
      by (metis length_greater_0_conv mod_less not_le less_irrefl)
    have m: "length (drop b xs) mod b = 0"
      using 1(3) le by (simp add: le_mod_geq)
    from 1(4) False 1(2) have "r = take b xs \<or> r \<in> set (chunks b (drop b xs))"
      by (simp add: chunks_step)
    then show ?thesis
    proof
      assume "r = take b xs"
      with le show ?thesis by simp
    next
      assume "r \<in> set (chunks b (drop b xs))"
      with 1(1) False 1(2) m show ?thesis by simp
    qed
  qed
qed

lemma chunks_concat:
  "0 < b \<Longrightarrow> \<forall>r\<in>set rows. length r = b \<Longrightarrow> chunks b (concat rows) = rows"
proof (induction rows)
  case Nil
  then show ?case by (simp add: chunks_Nil)
next
  case (Cons r rows)
  then have "r @ concat rows \<noteq> []" by auto
  with Cons show ?case by (simp add: chunks_step)
qed


lemma map2_same: "map2 f (map g xs) (map h xs) = map (\<lambda>x. f (g x) (h x)) xs"
  by (induction xs) simp_all

lemma map2_same_left: "map2 f xs (map h xs) = map (\<lambda>x. f x (h x)) xs"
  using map2_same [of f "\<lambda>x. x" xs h] by simp

section \<open>Encoding and decoding without range expansion\<close>

lemma length_concat_map_same:
  "(\<And>r. length (f r) = length r) \<Longrightarrow> length (concat (map f rows)) = length (concat rows)"
  by (induction rows) simp_all

lemma quantize_no_expansion:
  assumes b: "0 < b" and d: "length xs mod b = 0"
  shows "quantize_fp8 xs (int b) False
     = Inr (concat (map (\<lambda>r. block_codes r (block_scale r)) (chunks b xs)),
            map block_scale (chunks b xs), None)"
proof -
  have "int (length xs) mod int b = 0"
    using d by (simp add: zmod_int [symmetric])
  then have v: "view_blocks xs (int b) = Inr (chunks b xs)"
    using b by (simp add: view_blocks_def)
  show ?thesis
    by (simp add: quantize_fp8_def v map2_same_left)
qed

lemma floored_block_size_exact:
  fixes n b :: nat
  assumes "0 < b" "0 < n" "n mod b = 0"
  shows "0 < n div b" "int n div int (n div b) = int b"
proof -
  from assms(3) have "b dvd n" by (simp add: mod_eq_0_iff_dvd)
  then obtain q where q: "n = b * q" by (rule dvdE)
  with assms(1,2) have q0: "0 < q" by (cases "q = 0") auto
  show "0 < n div b" using q q0 assms(1) by simp
  have "n div (n div b) = b" using q q0 assms(1) by simp
  then show "int n div int (n div b) = int b"
    by (simp add: zdiv_int [symmetric])
qed

lemma dequantize_no_expansion:
  assumes b: "0 < b" and ne: "xs \<noteq> []" and d: "length xs mod b = 0"
  defines "rows \<equiv> chunks b xs"
  defines "C \<equiv> concat (map (\<lambda>r. block_codes r (block_scale r)) rows)"
  defines "S \<equiv> map block_scale rows"
  shows "OptimStateFp8_init C S None = Inr \<lparr>codes = C, scale = S, k = None, block_size = int b\<rparr>"
    and "dequantize \<lparr>codes = C, scale = S, k = None, block_size = int b\<rparr>
           = Inr (concat (map roundtrip_row rows))"
proof -
  have rl: "\<forall>r\<in>set rows. length r = b"
    using chunks_rows_length [OF b d] by (simp add: rows_def)
  have lC: "length C = length xs"
    unfolding C_def
    by (subst length_concat_map_same) (simp_all add: block_codes_def rows_def concat_chunks [OF b])
  have lS: "length S = length xs div b"
    by (simp add: S_def rows_def length_chunks [OF b d])
  have n0: "0 < length xs" using ne by simp
  note fb = floored_block_size_exact [OF b n0 d]
  show "OptimStateFp8_init C S None = Inr \<lparr>codes = C, scale = S, k = None, block_size = int b\<rparr>"
    using fb by (simp add: OptimStateFp8_init_def lC lS)
  let ?F = "\<lambda>r. map fp8_float (block_codes r (block_scale r))"
  have mc: "map fp8_float C = concat (map ?F rows)"
    by (simp add: C_def map_concat comp_def)
  have "\<forall>r\<in>set (map ?F rows). length r = b"
    using rl by (simp add: block_codes_def)
  then have ch: "chunks b (map fp8_float C) = map ?F rows"
    unfolding mc by (rule chunks_concat [OF b])
  have "int (length C) mod int b = 0"
    using d by (simp add: lC zmod_int [symmetric])
  then have v: "view_blocks (map fp8_float C) (int b) = Inr (map ?F rows)"
    using b by (simp add: view_blocks_def ch)
  have m: "mul_rows (map ?F rows) S = Inr (map roundtrip_row rows)"
    by (simp add: mul_rows_def S_def map2_same roundtrip_row_def block_codes_def comp_def)
  have l: "length (concat (map roundtrip_row rows)) = length C"
    unfolding lC
    by (subst length_concat_map_same) (simp_all add: roundtrip_row_def rows_def concat_chunks [OF b])
  show "dequantize \<lparr>codes = C, scale = S, k = None, block_size = int b\<rparr>
           = Inr (concat (map roundtrip_row rows))"
    by (simp add: dequantize_def rescale_def v m inverse_power_def truthy_def view_flat_def l)
qed




section \<open>The scale\<close>

lemma quantize_expansion_raises: "\<exists>e. quantize_fp8 xs bs True = Inl e"
  by (simp add: quantize_fp8_def expand_range_def torch_log_scalar_def split: sum.splits)

text \<open>
  C9. For a positive block size that divides the length of the input, \<open>quantize_fp8\<close>
  without expansion returns a scale with one entry per block, \<open>length / block_size\<close>
  entries in all, each strictly positive; and whatever the expansion flag is, a scale that
  the function returns has this length and only positive entries.
\<close>

theorem scale_positive:
  assumes b: "0 < b" and d: "length xs mod b = 0"
  shows "(\<exists>c s. quantize_fp8 xs (int b) False = Inr (c, s, None)
            \<and> length s = length xs div b \<and> (\<forall>v\<in>set s. 0 < v))
       \<and> (\<forall>e c s kk. quantize_fp8 xs (int b) e = Inr (c, s, kk)
            \<longrightarrow> length s = length xs div b \<and> (\<forall>v\<in>set s. 0 < v))"
proof -
  let ?S = "map block_scale (chunks b xs)"
  have l: "length ?S = length xs div b"
    by (simp add: length_chunks [OF b d])
  have p: "\<forall>v\<in>set ?S. 0 < v"
    by (auto simp: block_scale_pos)
  note q = quantize_no_expansion [OF b d]
  have 1: "\<exists>c s. quantize_fp8 xs (int b) False = Inr (c, s, None)
            \<and> length s = length xs div b \<and> (\<forall>v\<in>set s. 0 < v)"
    using q l p by blast
  have 2: "length s = length xs div b \<and> (\<forall>v\<in>set s. 0 < v)"
    if r: "quantize_fp8 xs (int b) e = Inr (c, s, kk)" for e c s kk
  proof (cases e)
    case True
    with r quantize_expansion_raises [of xs "int b"] show ?thesis by auto
  next
    case False
    with r q have "s = ?S" by simp
    with l p show ?thesis by simp
  qed
  from 1 2 show ?thesis by blast
qed

theorem scale_positive_witness:
  "0 < (2::nat) \<and> length [0, 0, 3, - 1 :: real] mod 2 = 0
   \<and> quantize_fp8 [0, 0, 3, - 1] (int 2) False
       = Inr ([0, 0, 126, 241], [1 / (448 * 10 ^ 12), 3 / 448], None)
   \<and> (\<exists>c s. quantize_fp8 [0, 0, 3, - 1] (int 2) False = Inr (c, s, None)
          \<and> length s = length [0, 0, 3, - 1 :: real] div 2 \<and> (\<forall>v\<in>set s. 0 < v))"
proof -
  have h1: "0 < (2::nat)" by simp
  have h2: "length [0, 0, 3, - 1 :: real] mod 2 = 0" by simp
  have e: "quantize_fp8 [0, 0, 3, - 1] (int 2) False
       = Inr ([0, 0, 126, 241], [1 / (448 * 10 ^ 12), 3 / 448], None)"
    by (simp add: quantize_eval) (simp add: fp8_eval)
  from scale_positive [OF h1 h2] h1 h2 e show ?thesis by (intro conjI) (erule conjunct1 | assumption)+
qed

section \<open>Blocks of zeros\<close>

lemma chunks_replicate:
  "0 < b \<Longrightarrow> chunks b (replicate (m * b) x) = replicate m (replicate b x)"
proof (induction m)
  case 0
  then show ?case by (simp add: chunks_Nil)
next
  case (Suc m)
  then have "replicate (Suc m * b) x \<noteq> []" by simp
  from chunks_step [OF Suc.prems this] Suc show ?case
    by (simp add: min_def)
qed

lemma amax_replicate: "0 < n \<Longrightarrow> amax (replicate n x) = x"
proof (induction n)
  case 0
  then show ?case by simp
next
  case (Suc n)
  then show ?case by (cases n) simp_all
qed

lemma block_scale_zero: "0 < b \<Longrightarrow> block_scale (replicate b 0) = 1 / (448 * 10 ^ 12)"
  by (simp add: block_scale_def amax_replicate clip_def finfo_max_def)

lemma block_codes_zero: "block_codes (replicate b 0) s = replicate b 0"
  by (simp add: block_codes_def fp8_cast_zero map_replicate_const)

lemma roundtrip_row_zero: "roundtrip_row (replicate b 0) = replicate b (Fin 0)"
  by (simp add: roundtrip_row_def fp8_cast_zero map_replicate_const)

lemma concat_replicate_replicate:
  "concat (replicate m (replicate b x)) = replicate (m * b) x"
  by (induction m) (simp_all add: replicate_add)

lemma zero_blocks_no_expansion:
  assumes b: "0 < b" and m: "0 < m"
  shows "quantize_fp8 (replicate (m * b) 0) (int b) False
           = Inr (replicate (m * b) 0, replicate m (1 / (448 * 10 ^ 12)), None)"
    and "dequantize \<lparr>codes = replicate (m * b) 0, scale = replicate m (1 / (448 * 10 ^ 12)),
                      k = None, block_size = int b\<rparr>
           = Inr (replicate (m * b) (Fin 0))"
proof -
  let ?xs = "replicate (m * b) (0 :: real)"
  have d: "length ?xs mod b = 0" by simp
  have ne: "?xs \<noteq> []" using b m by simp
  have C: "concat (map (\<lambda>r. block_codes r (block_scale r)) (chunks b ?xs)) = replicate (m * b) 0"
    by (simp add: chunks_replicate [OF b] block_codes_zero concat_replicate_replicate)
  have S: "map block_scale (chunks b ?xs) = replicate m (1 / (448 * 10 ^ 12))"
    by (simp add: chunks_replicate [OF b] block_scale_zero [OF b])
  have R: "concat (map roundtrip_row (chunks b ?xs)) = replicate (m * b) (Fin 0)"
    by (simp add: chunks_replicate [OF b] roundtrip_row_zero concat_replicate_replicate)
  show "quantize_fp8 ?xs (int b) False
           = Inr (replicate (m * b) 0, replicate m (1 / (448 * 10 ^ 12)), None)"
    using quantize_no_expansion [OF b d] unfolding C S .
  show "dequantize \<lparr>codes = replicate (m * b) 0, scale = replicate m (1 / (448 * 10 ^ 12)),
                      k = None, block_size = int b\<rparr>
           = Inr (replicate (m * b) (Fin 0))"
    using dequantize_no_expansion(2) [OF b ne d] unfolding C S R .
qed


end
